theory Spec2Isabelle
  imports Complex_Main "HOL-Library.Word"
begin

section \<open>JavaScript strings\<close>

text \<open>
  A JavaScript string is a sequence of UTF-16 code units. The regular expressions of
  \<^verbatim>\<open>safeEval\<close> carry no \<^verbatim>\<open>u\<close> flag, so they too work on code units.
  \<open>js\<close> writes a string of Latin-1 characters (code units below 256) as a literal.
\<close>

type_synonym code_unit = "16 word"
type_synonym jsstring = "code_unit list"

definition js :: "string \<Rightarrow> jsstring" where
  "js cs = map of_char cs"

text \<open>
  White space and line terminators of ECMAScript: what \<^verbatim>\<open>String.prototype.trim\<close> strips
  and what \<^verbatim>\<open>\s\<close> matches (TAB, LF, VT, FF, CR, SP, NBSP, U+1680, U+2000 to U+200A,
  U+2028, U+2029, U+202F, U+205F, U+3000, U+FEFF).
\<close>

definition is_space :: "code_unit \<Rightarrow> bool" where
  "is_space c \<longleftrightarrow>
     c \<in> set [0x09, 0x0A, 0x0B, 0x0C, 0x0D, 0x20, 0xA0, 0x1680, 0x2028, 0x2029,
       0x202F, 0x205F, 0x3000, 0xFEFF] \<or> (0x2000 \<le> c \<and> c \<le> 0x200A)"

definition trim :: "jsstring \<Rightarrow> jsstring" where
  "trim s = rev (dropWhile is_space (rev (dropWhile is_space s)))"

text \<open>\<^verbatim>\<open>s.replace(/c/g, r)\<close> for a pattern that is one code unit.\<close>

definition replace_all :: "code_unit \<Rightarrow> jsstring \<Rightarrow> jsstring \<Rightarrow> jsstring" where
  "replace_all c r s = concat (map (\<lambda>x. if x = c then r else [x]) s)"

text \<open>
  The first statements of \<^verbatim>\<open>safeEval\<close>: trim, then U+00D7 to \<^verbatim>\<open>*\<close>, U+00F7 to
  \<^verbatim>\<open>/\<close>, U+2014 and U+2212 to \<^verbatim>\<open>-\<close>, and commas removed. Every caller passes a
  string, on which \<^verbatim>\<open>String(expr || "")\<close> is the identity.
\<close>

definition normalized :: "jsstring \<Rightarrow> jsstring" where
  "normalized expr =
     replace_all 0x2C []
       (replace_all 0x2212 (js ''-'')
         (replace_all 0x2014 (js ''-'')
           (replace_all 0xF7 (js ''/'')
             (replace_all 0xD7 (js ''*'') (trim expr)))))"

subsection \<open>The two regular expressions\<close>

definition denylist :: "jsstring list" where
  "denylist = map js
     [''import'', ''createUnit'', ''evaluate'', ''parse'', ''simplify'', ''derivative'',
      ''compile'', ''help'', ''unit'', ''format'', ''typed'', ''reviver'', ''json'',
      ''chain'', ''matrix'', ''ones'', ''zeros'', ''range'', ''index'', ''subset'',
      ''concat'', ''resize'']"

text \<open>
  Case-insensitive matching without the \<^verbatim>\<open>u\<close> flag compares the canonical form of
  the code units: the upper-case mapping, which never takes a code unit of 128 or
  more to one below 128. Every code unit of the denylist is an ASCII letter, so only
  the ASCII part of the mapping decides a match; the other code units are left as
  they are.
\<close>

definition canonicalize :: "code_unit \<Rightarrow> code_unit" where
  "canonicalize c = (if 0x61 \<le> c \<and> c \<le> 0x7A then c - 0x20 else c)"

fun matches_at :: "jsstring \<Rightarrow> jsstring \<Rightarrow> bool" where
  "matches_at [] cs = True"
| "matches_at (p # ps) [] = False"
| "matches_at (p # ps) (c # cs) = (canonicalize p = canonicalize c \<and> matches_at ps cs)"

text \<open>
  \<^verbatim>\<open>blocked.test(s)\<close>: the alternatives are tried at every start index, the end of
  the string included.
\<close>

fun blocked_test :: "jsstring \<Rightarrow> bool" where
  "blocked_test [] = list_ex (\<lambda>w. matches_at w []) denylist"
| "blocked_test (c # cs) = (list_ex (\<lambda>w. matches_at w (c # cs)) denylist \<or> blocked_test cs)"

text \<open>The class \<^verbatim>\<open>[0-9+\-*/().\s^%piePIE]\<close> and \<^verbatim>\<open>allowed.test(s)\<close>.\<close>

definition allowed_char :: "code_unit \<Rightarrow> bool" where
  "allowed_char c \<longleftrightarrow>
     (0x30 \<le> c \<and> c \<le> 0x39) \<or> c \<in> set (js ''+-*/().'') \<or> is_space c \<or>
     c \<in> set (js ''^%piePIE'')"

definition allowed_test :: "jsstring \<Rightarrow> bool" where
  "allowed_test s = list_all allowed_char s"

section \<open>JavaScript numbers\<close>

text \<open>
  A Number is an IEEE 754 binary64 value: NaN, an infinity with its sign, or a finite
  value with its sign bit (\<open>True\<close> for negative) and its magnitude, a rational. The
  two zeros are \<open>Finite False 0\<close> and \<open>Finite True 0\<close>.
\<close>

datatype number = NaN | Infinity bool | Finite bool rat

text \<open>The number of digits of \<open>n\<close> in base \<open>b\<close> (none for 0).\<close>

function digit_count :: "int \<Rightarrow> int \<Rightarrow> int" where
  "digit_count b n = (if n \<le> 0 \<or> b < 2 then 0 else 1 + digit_count b (n div b))"
  by pat_completeness auto
termination
  by (relation "measure (\<lambda>(b, n). nat n)") (auto intro: int_div_less_self)

text \<open>For \<open>0 < a\<close>, the integer \<open>e\<close> with \<open>b ^ e \<le> a < b ^ (e + 1)\<close>.\<close>

definition floor_log :: "int \<Rightarrow> rat \<Rightarrow> int" where
  "floor_log b a =
     (if 1 \<le> a then digit_count b \<lfloor>a\<rfloor> - 1 else - digit_count b (\<lceil>1 / a\<rceil> - 1))"

definition round_half_even :: "rat \<Rightarrow> int" where
  "round_half_even r =
     (let f = \<lfloor>r\<rfloor>; d = r - of_int f
      in if d < 1 / 2 then f else if 1 / 2 < d then f + 1 else if even f then f else f + 1)"

text \<open>
  Rounding of a magnitude to binary64, to nearest with ties to even: 53 significant
  bits, the unit in the last place never below \<open>2 ^ (- 1074)\<close> (subnormals); a rounded
  magnitude of \<open>2 ^ 1024\<close> or more is an infinity.
\<close>

definition round_magnitude :: "rat \<Rightarrow> rat" where
  "round_magnitude a =
     (if a = 0 then 0
      else let p = max (floor_log 2 a - 52) (- 1074)
           in of_int (round_half_even (a / 2 powi p)) * 2 powi p)"

definition fl :: "bool \<Rightarrow> rat \<Rightarrow> number" where
  "fl neg a = (let v = round_magnitude a in if 2 ^ 1024 \<le> v then Infinity neg else Finite neg v)"

definition signed :: "bool \<Rightarrow> rat \<Rightarrow> rat" where
  "signed neg a = (if neg then - a else a)"

text \<open>The operators \<^verbatim>\<open>+\<close>, \<^verbatim>\<open>*\<close> and \<^verbatim>\<open>/\<close> on Numbers.\<close>

fun num_add :: "number \<Rightarrow> number \<Rightarrow> number" where
  "num_add NaN y = NaN"
| "num_add x NaN = NaN"
| "num_add (Infinity s) (Infinity t) = (if s = t then Infinity s else NaN)"
| "num_add (Infinity s) (Finite t b) = Infinity s"
| "num_add (Finite s a) (Infinity t) = Infinity t"
| "num_add (Finite s a) (Finite t b) =
     (let r = signed s a + signed t b
      in if r = 0 then Finite (s \<and> t) 0 else fl (r < 0) \<bar>r\<bar>)"

fun num_mul :: "number \<Rightarrow> number \<Rightarrow> number" where
  "num_mul NaN y = NaN"
| "num_mul x NaN = NaN"
| "num_mul (Infinity s) (Infinity t) = Infinity (s \<noteq> t)"
| "num_mul (Infinity s) (Finite t b) = (if b = 0 then NaN else Infinity (s \<noteq> t))"
| "num_mul (Finite s a) (Infinity t) = (if a = 0 then NaN else Infinity (s \<noteq> t))"
| "num_mul (Finite s a) (Finite t b) = fl (s \<noteq> t) (a * b)"

fun num_div :: "number \<Rightarrow> number \<Rightarrow> number" where
  "num_div NaN y = NaN"
| "num_div x NaN = NaN"
| "num_div (Infinity s) (Infinity t) = NaN"
| "num_div (Infinity s) (Finite t b) = Infinity (s \<noteq> t)"
| "num_div (Finite s a) (Infinity t) = Finite (s \<noteq> t) 0"
| "num_div (Finite s a) (Finite t b) =
     (if b = 0 then (if a = 0 then NaN else Infinity (s \<noteq> t)) else fl (s \<noteq> t) (a / b))"

text \<open>
  \<^verbatim>\<open>Math.round\<close>: the nearest integer, a tie going up; a result of zero keeps the sign
  of the argument. The result is a binary64 value whenever the argument is.
\<close>

fun Math_round :: "number \<Rightarrow> number" where
  "Math_round (Finite s a) =
     (let n = \<lfloor>signed s a + 1 / 2\<rfloor> in if n = 0 then Finite s 0 else Finite (n < 0) (of_int \<bar>n\<bar>))"
| "Math_round x = x"

fun isFinite :: "number \<Rightarrow> bool" where
  "isFinite (Finite s a) = True"
| "isFinite x = False"

definition Number_EPSILON :: number where
  "Number_EPSILON = Finite False (1 / 2 ^ 52)"

text \<open>The literal \<^verbatim>\<open>1e12\<close>.\<close>

definition lit_1e12 :: number where
  "lit_1e12 = Finite False (10 ^ 12)"

subsection \<open>Number to string\<close>

definition digit :: "int \<Rightarrow> code_unit" where
  "digit d = of_int (48 + d)"

function digits :: "int \<Rightarrow> jsstring" where
  "digits n = (if n < 10 then [digit n] else digits (n div 10) @ [digit (n mod 10)])"
  by pat_completeness auto
termination
  by (relation "measure nat") auto

text \<open>
  \<^verbatim>\<open>Number::toString\<close> picks integers \<open>n\<close>, \<open>k\<close>, \<open>s\<close> with \<open>k\<close> digits in \<open>s\<close>, such
  that \<open>s * 10 ^ (n - k)\<close> converts to the number and \<open>k\<close> is as small as possible;
  of two such \<open>s\<close> the one nearer to the number (an even one on a tie), as the engines
  do. For a magnitude \<open>a\<close> with \<open>10 ^ (n0 - 1) \<le> a < 10 ^ n0\<close> the only candidates with
  \<open>k\<close> digits are the two neighbours of \<open>a\<close>; the upper one may be \<open>10 ^ n0\<close> itself.
  Seventeen digits always identify a binary64 value.
\<close>

function shortest :: "rat \<Rightarrow> int \<Rightarrow> int \<Rightarrow> int \<times> int \<times> int" where
  "shortest a n0 k =
     (let u = 10 powi (n0 - k);
          lo = \<lfloor>a / u\<rfloor>;
          hi = lo + 1;
          ok_lo = (round_magnitude (of_int lo * u) = a);
          ok_hi = (round_magnitude (of_int hi * u) = a);
          d_lo = a - of_int lo * u;
          d_hi = of_int hi * u - a
      in if ok_lo \<and> (\<not> ok_hi \<or> d_lo < d_hi \<or> (d_lo = d_hi \<and> even lo)) then (n0, k, lo)
         else if ok_hi then (if hi = 10 ^ nat k then (n0 + 1, 1, 1) else (n0, k, hi))
         else if 17 \<le> k then (n0, k, lo)
         else shortest a n0 (k + 1))"
  by pat_completeness auto
termination
  by (relation "measure (\<lambda>(a, n0, k). nat (17 - k))") auto

definition format :: "int \<times> int \<times> int \<Rightarrow> jsstring" where
  "format nks =
     (case nks of (n, k, s) \<Rightarrow>
        let ds = digits s
        in if k \<le> n \<and> n \<le> 21 then ds @ replicate (nat (n - k)) (digit 0)
           else if 0 < n \<and> n \<le> 21 then take (nat n) ds @ js ''.'' @ drop (nat n) ds
           else if - 6 < n \<and> n \<le> 0 then js ''0.'' @ replicate (nat (- n)) (digit 0) @ ds
           else (if k = 1 then ds else take 1 ds @ js ''.'' @ drop 1 ds) @ js ''e'' @
                (if n - 1 < 0 then js ''-'' else js ''+'') @ digits \<bar>n - 1\<bar>)"

fun Number_toString :: "number \<Rightarrow> jsstring" where
  "Number_toString NaN = js ''NaN''"
| "Number_toString (Infinity s) = (if s then js ''-Infinity'' else js ''Infinity'')"
| "Number_toString (Finite s a) =
     (if a = 0 then js ''0''
      else (if s then js ''-'' else []) @ format (shortest a (floor_log 10 a + 1) 1))"

section \<open>safeEval\<close>

text \<open>
  \<^verbatim>\<open>Math.round((result + Number.EPSILON) * 1e12) / 1e12\<close>.
\<close>

definition rounded :: "number \<Rightarrow> number" where
  "rounded result =
     num_div (Math_round (num_mul (num_add result Number_EPSILON) lit_1e12)) lit_1e12"

text \<open>
  \<^verbatim>\<open>math.evaluate\<close> belongs to the mathjs library, which is not part of the
  repository: \<^verbatim>\<open>safeEval\<close> takes it as a parameter. A call returns a value or throws
  an error with a message. Of a value \<^verbatim>\<open>safeEval\<close> asks whether it is a Number
  (\<^verbatim>\<open>typeof result === "number"\<close>) and otherwise only what \<^verbatim>\<open>String\<close> makes of it: the
  text carried by \<open>Object\<close>.
\<close>

datatype engine_value = NumberValue number | Undefined | Object jsstring

datatype engine_result = Returned engine_value | Threw jsstring

type_synonym engine = "jsstring \<Rightarrow> engine_result"

fun ToString :: "engine_value \<Rightarrow> jsstring" where
  "ToString (NumberValue x) = Number_toString x"
| "ToString Undefined = js ''undefined''"
| "ToString (Object t) = t"

text \<open>
  The errors \<^verbatim>\<open>safeEval\<close> throws, named as the specification names their kinds, and
  the \<^verbatim>\<open>message\<close> each carries. An error of the engine passes through with the
  engine's message.
\<close>

datatype error = UnsupportedConstruct | InvalidCharacters | NonFinite | EvaluationFailure jsstring

fun message :: "error \<Rightarrow> jsstring" where
  "message UnsupportedConstruct = js ''Unsupported expression.''"
| "message InvalidCharacters = js ''Invalid characters.''"
| "message NonFinite = js ''Result is not finite.''"
| "message (EvaluationFailure m) = m"

definition safeEval :: "engine \<Rightarrow> jsstring \<Rightarrow> error + jsstring" where
  "safeEval math_evaluate expr =
     (let s = normalized expr
      in if blocked_test s then Inl UnsupportedConstruct
         else if \<not> allowed_test s then Inl InvalidCharacters
         else (case math_evaluate s of
                 Threw m \<Rightarrow> Inl (EvaluationFailure m)
               | Returned (NumberValue result) \<Rightarrow>
                   if \<not> isFinite result then Inl NonFinite
                   else Inr (Number_toString (rounded result))
               | Returned v \<Rightarrow> Inr (ToString v)))"

text \<open>
  What mathjs (configured with \<^verbatim>\<open>number: "number"\<close>) returns on the strings of the
  examples below: the empty expression is \<^verbatim>\<open>undefined\<close>, a decimal literal is the
  nearest binary64 value, \<^verbatim>\<open>pi\<close> is \<^verbatim>\<open>Math.PI\<close>, and \<^verbatim>\<open>10/0\<close> is \<^verbatim>\<open>Infinity\<close>. The
  table stands for the engine where a theorem is applied to a concrete input; no
  other string is looked up in it.
\<close>

definition mathjs_sample :: engine where
  "mathjs_sample s =
     (if s = [] then Returned Undefined
      else if s = js ''2+2'' then Returned (NumberValue (Finite False 4))
      else if s = js ''4'' then Returned (NumberValue (Finite False 4))
      else if s = js ''2^10'' then Returned (NumberValue (Finite False 1024))
      else if s = js ''12*(3+4)'' then Returned (NumberValue (Finite False 84))
      else if s = js ''12+3'' then Returned (NumberValue (Finite False 15))
      else if s = js ''15'' then Returned (NumberValue (Finite False 15))
      else if s = js ''10/0'' then Returned (NumberValue (Infinity False))
      else if s = js ''pi'' then Returned (NumberValue (Finite False (884279719003555 / 2 ^ 48)))
      else if s = js ''1e300'' then Returned (NumberValue (fl False (10 ^ 300)))
      else if s = js ''4223.926407041819''
        then Returned (NumberValue (fl False (4223926407041819 / 10 ^ 12)))
      else if s = js ''4223.92640704182''
        then Returned (NumberValue (fl False (422392640704182 / 10 ^ 11)))
      else if s = js ''4096.1'' then Returned (NumberValue (fl False (40961 / 10)))
      else if s = js ''4096.100000000001''
        then Returned (NumberValue (fl False (4096100000000001 / 10 ^ 12)))
      else Threw (js ''Unexpected input''))"

section \<open>The calculator session\<close>

text \<open>
  The object \<^verbatim>\<open>{ expr, result, msgId }\<close> kept per chat in the map \<^verbatim>\<open>state\<close>;
  \<open>None\<close> is \<^verbatim>\<open>null\<close>.
\<close>

record session =
  expr :: jsstring
  result :: jsstring
  msgId :: "nat option"

type_synonym sessions = "int \<rightharpoonup> session"

definition fresh :: session where
  "fresh = \<lparr>expr = [], result = [], msgId = None\<rparr>"

text \<open>
  What the messaging platform does with the calls of one handler run: whether
  \<^verbatim>\<open>editMessageText\<close> succeeds, and the message id \<^verbatim>\<open>ctx.reply\<close> returns in the
  \<^verbatim>\<open>try\<close> block and in the \<^verbatim>\<open>catch\<close> block (\<open>None\<close> when the call throws).
\<close>

record transport =
  edit_ok :: bool
  reply :: "nat option"
  retry :: "nat option"

datatype outcome = Done | Raised

text \<open>\<^verbatim>\<open>if (s.msgId)\<close>: \<^verbatim>\<open>null\<close> and 0 are falsy.\<close>

definition truthy :: "nat option \<Rightarrow> bool" where
  "truthy m = (case m of None \<Rightarrow> False | Some i \<Rightarrow> i \<noteq> 0)"

text \<open>The \<^verbatim>\<open>/calculator\<close> command (\<^verbatim>\<open>bot.start\<close> in the two other variants).\<close>

definition calculator_command :: "nat option \<Rightarrow> int \<Rightarrow> sessions \<Rightarrow> sessions \<times> outcome" where
  "calculator_command replied chatId state =
     (let s = \<lparr>expr = [], result = [], msgId = None\<rparr>;
          state = state(chatId \<mapsto> s)
      in case replied of
           None \<Rightarrow> (state, Raised)
         | Some message_id \<Rightarrow> (state(chatId \<mapsto> s\<lparr>msgId := Some message_id\<rparr>), Done))"

text \<open>The branches on \<^verbatim>\<open>key\<close> of the \<^verbatim>\<open>callback_query\<close> handler.\<close>

definition press_key :: "engine \<Rightarrow> jsstring \<Rightarrow> session \<Rightarrow> session" where
  "press_key math_evaluate key s =
     (if key = js ''C'' then s\<lparr>expr := [], result := []\<rparr>
      else if key = js ''BS'' then s\<lparr>expr := butlast (expr s)\<rparr>
      else if key = js ''='' then
        s\<lparr>result :=
            (if expr s \<noteq> [] then
               (case safeEval math_evaluate (expr s) of
                  Inr v \<Rightarrow> v
                | Inl e \<Rightarrow> js ''Error: '' @ message e)
             else [])\<rparr>
      else s\<lparr>expr := expr s @ key\<rparr>)"

text \<open>
  The delivery of the rendered keypad: edit the message in place when there is one,
  send a new one otherwise or when that fails.
\<close>

definition resend :: "transport \<Rightarrow> session \<Rightarrow> session \<times> outcome" where
  "resend t s =
     (case retry t of
        Some message_id \<Rightarrow> (s\<lparr>msgId := Some message_id\<rparr>, Done)
      | None \<Rightarrow> (s, Raised))"

definition deliver :: "transport \<Rightarrow> session \<Rightarrow> session \<times> outcome" where
  "deliver t s =
     (if truthy (msgId s) then (if edit_ok t then (s, Done) else resend t s)
      else (case reply t of
              Some message_id \<Rightarrow> (s\<lparr>msgId := Some message_id\<rparr>, Done)
            | None \<Rightarrow> resend t s))"

text \<open>
  The handler on the session object \<^verbatim>\<open>s\<close>, and on the map: \<^verbatim>\<open>state.get(chatId)\<close> or a
  new object, stored back at once. The text \<^verbatim>\<open>renderUI\<close> makes and the final
  \<^verbatim>\<open>answerCbQuery\<close> do not touch the session and are left out.
\<close>

definition on_callback :: "engine \<Rightarrow> transport \<Rightarrow> jsstring \<Rightarrow> session \<Rightarrow> session \<times> outcome" where
  "on_callback math_evaluate t dat s =
     (if take 2 dat \<noteq> js ''k:'' then (s, Done)
      else deliver t (press_key math_evaluate (drop 2 dat) s))"

definition callback_query ::
  "engine \<Rightarrow> transport \<Rightarrow> int \<Rightarrow> jsstring \<Rightarrow> sessions \<Rightarrow> sessions \<times> outcome" where
  "callback_query math_evaluate t chatId dat state =
     (let s = (case state chatId of Some s \<Rightarrow> s | None \<Rightarrow> fresh);
          (s', out) = on_callback math_evaluate t dat s
      in (state(chatId \<mapsto> s'), out))"


text \<open>The keys of the keypad \<^verbatim>\<open>kb()\<close> other than \<^verbatim>\<open>C\<close>, \<^verbatim>\<open>BS\<close> and \<^verbatim>\<open>=\<close>.\<close>

definition append_keys :: "jsstring list" where
  "append_keys = map js
     [''7'', ''8'', ''9'', ''/'', ''4'', ''5'', ''6'', ''*'', ''1'', ''2'', ''3'', ''-'',
      ''0'', ''.'', ''('', '')'', ''+'']"

section \<open>Predicates of the specification\<close>

text \<open>
  "The text \<open>t\<close> contains the identifier \<open>w\<close>, case-insensitively": some stretch of
  \<open>t\<close> has the canonical form of \<open>w\<close>.
\<close>

definition contains_ci :: "jsstring \<Rightarrow> jsstring \<Rightarrow> bool" where
  "contains_ci w t \<longleftrightarrow>
     (\<exists>pre u post. t = pre @ u @ post \<and> map canonicalize u = map canonicalize w)"

text \<open>The code units \<^verbatim>\<open>Number::toString\<close> writes a finite Number with.\<close>

definition number_chars :: jsstring where
  "number_chars = js ''0123456789.-+e''"

section \<open>The regular expressions and the normalisation\<close>

lemma matches_at_iff:
  "matches_at w t \<longleftrightarrow> (\<exists>u post. t = u @ post \<and> map canonicalize u = map canonicalize w)"
proof (induction w t rule: matches_at.induct)
  case (1 cs)
  then show ?case by simp
next
  case (2 p ps)
  then show ?case by simp
next
  case (3 p ps c cs)
  show ?case
  proof
    assume "matches_at (p # ps) (c # cs)"
    then obtain u post where "cs = u @ post" "map canonicalize u = map canonicalize ps"
      and "canonicalize p = canonicalize c"
      using 3 by auto
    then have "c # cs = (c # u) @ post \<and> map canonicalize (c # u) = map canonicalize (p # ps)"
      by simp
    then show "\<exists>u post. c # cs = u @ post \<and> map canonicalize u = map canonicalize (p # ps)"
      by blast
  next
    assume "\<exists>u post. c # cs = u @ post \<and> map canonicalize u = map canonicalize (p # ps)"
    then obtain u post where u: "c # cs = u @ post" "map canonicalize u = map canonicalize (p # ps)"
      by blast
    then obtain x xs where "u = x # xs" by (cases u) auto
    with u 3 show "matches_at (p # ps) (c # cs)" by auto
  qed
qed

lemma contains_ci_Nil: "contains_ci w [] \<longleftrightarrow> matches_at w []"
  by (auto simp: contains_ci_def matches_at_iff)

lemma contains_ci_Cons: "contains_ci w (c # cs) \<longleftrightarrow> matches_at w (c # cs) \<or> contains_ci w cs"
proof
  assume "contains_ci w (c # cs)"
  then obtain pre u post where *: "c # cs = pre @ u @ post" "map canonicalize u = map canonicalize w"
    unfolding contains_ci_def by blast
  show "matches_at w (c # cs) \<or> contains_ci w cs"
  proof (cases pre)
    case Nil
    with * show ?thesis by (auto simp: matches_at_iff)
  next
    case (Cons x xs)
    with * have "cs = xs @ u @ post" by simp
    with * show ?thesis unfolding contains_ci_def by blast
  qed
next
  assume "matches_at w (c # cs) \<or> contains_ci w cs"
  then show "contains_ci w (c # cs)"
  proof
    assume "matches_at w (c # cs)"
    then obtain u post where "c # cs = [] @ u @ post" "map canonicalize u = map canonicalize w"
      by (auto simp: matches_at_iff)
    then show ?thesis unfolding contains_ci_def by blast
  next
    assume "contains_ci w cs"
    then obtain pre u post where "c # cs = (c # pre) @ u @ post" "map canonicalize u = map canonicalize w"
      unfolding contains_ci_def by auto
    then show ?thesis unfolding contains_ci_def by blast
  qed
qed

lemma blocked_test_iff: "blocked_test t \<longleftrightarrow> (\<exists>w\<in>set denylist. contains_ci w t)"
  by (induction t) (auto simp: list_ex_iff contains_ci_Nil contains_ci_Cons)

lemma trim_spaces: "\<forall>c\<in>set s. is_space c \<Longrightarrow> trim s = []"
proof -
  assume "\<forall>c\<in>set s. is_space c"
  then have h: "dropWhile is_space s = []" by (induction s) auto
  show ?thesis unfolding trim_def h by simp
qed

lemma trim_no_space: "\<forall>c\<in>set s. \<not> is_space c \<Longrightarrow> trim s = s"
proof -
  assume a: "\<forall>c\<in>set s. \<not> is_space c"
  have "dropWhile is_space xs = xs" if "\<forall>c\<in>set xs. \<not> is_space c" for xs
    using that by (cases xs) auto
  from this[of s] this[of "rev s"] a show ?thesis by (simp add: trim_def)
qed

lemma replace_all_absent: "c \<notin> set s \<Longrightarrow> replace_all c r s = s"
  by (induction s) (auto simp: replace_all_def)

lemma normalized_spaces: "\<forall>c\<in>set s. is_space c \<Longrightarrow> normalized s = []"
  by (simp add: normalized_def trim_spaces replace_all_def)

lemmas str_ev = js_def normalized_def trim_def replace_all_def is_space_def allowed_test_def
  allowed_char_def denylist_def canonicalize_def contains_ci_Nil contains_ci_Cons

section \<open>Numbers written as strings\<close>

declare digit_count.simps [simp del] digits.simps [simp del] shortest.simps [simp del]

lemma number_chars_plain:
  "list_all (\<lambda>c. \<not> is_space c \<and> allowed_char c \<and> c \<noteq> 0xD7 \<and> c \<noteq> 0xF7 \<and> c \<noteq> 0x2014 \<and> c \<noteq> 0x2212 \<and> c \<noteq> 0x2C) number_chars"
  by (simp add: number_chars_def js_def is_space_def allowed_char_def)

lemma denylist_letters:
  "list_all (\<lambda>w. list_ex (\<lambda>p. canonicalize p \<notin> set (map canonicalize number_chars)) w) denylist"
  by (simp add: number_chars_def denylist_def js_def canonicalize_def)

lemma normalized_number_chars:
  assumes "set t \<subseteq> set number_chars"
  shows "normalized t = t"
proof -
  have *: "\<not> is_space c \<and> c \<noteq> 0xD7 \<and> c \<noteq> 0xF7 \<and> c \<noteq> 0x2014 \<and> c \<noteq> 0x2212 \<and> c \<noteq> 0x2C" if "c \<in> set t" for c
    using number_chars_plain assms that by (auto simp: list_all_iff)
  then have "trim t = t" by (simp add: trim_no_space)
  moreover have "0xD7 \<notin> set t" "0xF7 \<notin> set t" "0x2014 \<notin> set t" "0x2212 \<notin> set t" "0x2C \<notin> set t"
    using * by blast+
  ultimately show ?thesis
    by (simp add: normalized_def replace_all_absent)
qed

lemma allowed_number_chars:
  assumes "set t \<subseteq> set number_chars"
  shows "allowed_test t"
  using number_chars_plain assms by (auto simp: list_all_iff allowed_test_def)

lemma not_blocked_number_chars:
  assumes "set t \<subseteq> set number_chars"
  shows "\<not> blocked_test t"
proof
  assume "blocked_test t"
  then obtain w pre u post where w: "w \<in> set denylist" and t: "t = pre @ u @ post"
    and m: "map canonicalize u = map canonicalize w"
    by (auto simp: blocked_test_iff contains_ci_def)
  from w denylist_letters obtain p where p: "p \<in> set w"
    "canonicalize p \<notin> canonicalize ` set number_chars"
    by (auto simp: list_all_iff list_ex_iff)
  from p(1) have "canonicalize p \<in> set (map canonicalize w)" by simp
  with m have "canonicalize p \<in> canonicalize ` set u" by (metis set_map)
  with t assms have "canonicalize p \<in> canonicalize ` set number_chars" by auto
  with p(2) show False by contradiction
qed

lemma digit_in_number_chars: "0 \<le> d \<Longrightarrow> d < 10 \<Longrightarrow> digit d \<in> set number_chars"
proof -
  assume "0 \<le> d" "d < 10"
  then have "d = 0 \<or> d = 1 \<or> d = 2 \<or> d = 3 \<or> d = 4 \<or> d = 5 \<or> d = 6 \<or> d = 7 \<or> d = 8 \<or> d = 9"
    by arith
  then show ?thesis
    by (auto simp: digit_def number_chars_def js_def)
qed

lemma digits_number_chars: "0 \<le> n \<Longrightarrow> set (digits n) \<subseteq> set number_chars"
proof (induction n rule: digits.induct)
  case (1 n)
  show ?case
  proof (cases "n < 10")
    case True
    with 1 show ?thesis
      by (subst digits.simps) (simp add: digit_in_number_chars)
  next
    case False
    with 1 have "set (digits (n div 10)) \<subseteq> set number_chars" by simp
    moreover have "digit (n mod 10) \<in> set number_chars"
      by (rule digit_in_number_chars) simp_all
    ultimately show ?thesis
      using False by (subst digits.simps) simp
  qed
qed

lemma shortest_nonneg: "0 \<le> a \<Longrightarrow> shortest a n0 k = (n, k', s) \<Longrightarrow> 0 \<le> s"
proof (induction a n0 k rule: shortest.induct)
  case (1 a n0 k)
  have u: "(0::rat) < 10 powi (n0 - k)" by simp
  with 1(2) have lo: "0 \<le> \<lfloor>a / 10 powi (n0 - k)\<rfloor>" by simp
  from 1(3) show ?case
    apply (subst (asm) shortest.simps)
    apply (simp only: Let_def split: if_splits)
    using lo 1(1)[OF refl refl refl refl refl refl refl _ _ _ 1(2)] apply auto
    done
qed

lemma format_number_chars: "0 \<le> s \<Longrightarrow> set (format (n, k, s)) \<subseteq> set number_chars"
proof -
  assume "0 \<le> s"
  then have ds: "set (digits s) \<subseteq> set number_chars" by (rule digits_number_chars)
  have ex: "set (digits \<bar>n - 1\<bar>) \<subseteq> set number_chars" by (rule digits_number_chars) simp
  have z: "digit 0 \<in> set number_chars" by (rule digit_in_number_chars) simp_all
  have p: "set (js ''.'') \<subseteq> set number_chars" "set (js ''0.'') \<subseteq> set number_chars"
    "set (js ''e'') \<subseteq> set number_chars" "set (js ''-'') \<subseteq> set number_chars"
    "set (js ''+'') \<subseteq> set number_chars"
    by (simp_all add: js_def number_chars_def)
  have t: "set (take m (digits s)) \<subseteq> set number_chars" "set (drop m (digits s)) \<subseteq> set number_chars" for m
    using ds set_take_subset[of m "digits s"] set_drop_subset[of m "digits s"] by blast+
  show ?thesis
    unfolding format_def using ds ex z p t
    by (simp add: Let_def subset_iff)
qed

lemma Number_toString_number_chars:
  "0 \<le> a \<Longrightarrow> set (Number_toString (Finite sg a)) \<subseteq> set number_chars"
proof -
  assume a: "0 \<le> a"
  obtain n k s where sh: "shortest a (floor_log 10 a + 1) 1 = (n, k, s)"
    by (cases "shortest a (floor_log 10 a + 1) 1") auto
  with a have "0 \<le> s" by (rule shortest_nonneg)
  then have "set (format (n, k, s)) \<subseteq> set number_chars" by (rule format_number_chars)
  moreover have "set (js ''0'') \<subseteq> set number_chars" "set (js ''-'') \<subseteq> set number_chars"
    by (simp_all add: js_def number_chars_def)
  ultimately show ?thesis
    using sh by auto
qed

lemma round_half_even_nonneg: "0 \<le> r \<Longrightarrow> 0 \<le> round_half_even r"
  by (simp add: round_half_even_def Let_def)

lemma round_magnitude_nonneg: "0 \<le> v \<Longrightarrow> 0 \<le> round_magnitude v"
  by (simp add: round_magnitude_def Let_def round_half_even_nonneg)

lemma fl_nonneg: "0 \<le> v \<Longrightarrow> fl s v = Finite sg a \<Longrightarrow> 0 \<le> a"
  by (auto simp: fl_def Let_def round_magnitude_nonneg split: if_splits)

lemma rounded_nonneg: "rounded x = Finite sg a \<Longrightarrow> 0 \<le> a"
proof -
  assume r: "rounded x = Finite sg a"
  define y where "y = Math_round (num_mul (num_add x Number_EPSILON) lit_1e12)"
  from r have d: "num_div y lit_1e12 = Finite sg a" by (simp add: rounded_def y_def)
  then obtain s m where y: "y = Finite s m"
    by (cases y) (auto simp: lit_1e12_def)
  have "0 \<le> m"
  proof (cases "num_mul (num_add x Number_EPSILON) lit_1e12")
    case NaN
    with y show ?thesis by (simp add: y_def)
  next
    case (Infinity t)
    with y show ?thesis by (simp add: y_def)
  next
    case (Finite t b)
    with y show ?thesis by (auto simp: y_def Let_def split: if_splits)
  qed
  with d y show ?thesis
    by (auto simp: lit_1e12_def dest: fl_nonneg[rotated])
qed

section \<open>Evaluation of concrete numbers\<close>

lemmas digit_count_numeral = digit_count.simps [of _ "numeral n" for n]
  and digit_count_0 = digit_count.simps [of _ 0]
  and digit_count_1 = digit_count.simps [of _ 1]
  and digits_numeral = digits.simps [of "numeral n" for n]
  and digits_0 = digits.simps [of 0]
  and digits_1 = digits.simps [of 1]
  and shortest_numeral = shortest.simps [of _ _ "numeral k" for k]
  and shortest_1 = shortest.simps [of _ _ 1]

lemma floor_rat_numeral: "\<lfloor>numeral a / numeral b :: rat\<rfloor> = numeral a div numeral b"
  by (metis floor_divide_of_int_eq of_int_numeral)
lemma floor_rat_one: "\<lfloor>1 / numeral b :: rat\<rfloor> = 1 div numeral b"
  by (metis floor_divide_of_int_eq of_int_numeral of_int_1)
lemma ceiling_rat_numeral: "\<lceil>numeral a / numeral b :: rat\<rceil> = - (- numeral a div numeral b)"
  using ceiling_divide_eq_div[of "numeral a" "numeral b", where ?'a = rat] by simp
lemma ceiling_rat_one: "\<lceil>1 / numeral b :: rat\<rceil> = - (- 1 div numeral b)"
  using ceiling_divide_eq_div[of 1 "numeral b", where ?'a = rat] by simp

lemmas num_ev = digit_count_numeral digit_count_0 digit_count_1 floor_rat_numeral floor_rat_one
  ceiling_rat_numeral ceiling_rat_one floor_log_def round_half_even_def round_magnitude_def
  fl_def signed_def Let_def Number_EPSILON_def lit_1e12_def rounded_def

lemmas show_ev = shortest_numeral shortest_1 digits_numeral digits_0 digits_1 format_def digit_def

section \<open>Rounding of integers\<close>

lemma digit_count_nonneg: "0 \<le> digit_count b n"
proof (induction b n rule: digit_count.induct)
  case (1 b n)
  then show ?case
    by (subst digit_count.simps) simp
qed

lemma digit_count_bounds:
  "0 < n \<Longrightarrow> 2 ^ nat (digit_count 2 n - 1) \<le> n \<and> n < 2 ^ nat (digit_count 2 n)"
proof (induction "2::int" n rule: digit_count.induct)
  case (1 n)
  show ?case
  proof (cases "n = 1")
    case True
    then show ?thesis
      by (simp add: digit_count.simps [of 2 1] digit_count.simps [of 2 0])
  next
    case False
    with 1(2) have h: "0 < n div 2" by simp
    have dc: "digit_count 2 n = 1 + digit_count 2 (n div 2)"
      using 1(2) by (subst digit_count.simps) simp
    from 1(1) 1(2) h have ih: "2 ^ nat (digit_count 2 (n div 2) - 1) \<le> n div 2"
      "n div 2 < 2 ^ nat (digit_count 2 (n div 2))"
      by simp_all
    have pos: "1 \<le> digit_count 2 (n div 2)"
      using h digit_count_nonneg [of 2 "n div 2 div 2"] by (subst digit_count.simps) simp
    define k where "k = nat (digit_count 2 (n div 2) - 1)"
    have k1: "nat (digit_count 2 (n div 2)) = Suc k" using pos by (simp add: k_def)
    have k2: "nat (digit_count 2 n - 1) = Suc k" using pos by (simp add: dc k_def)
    have k3: "nat (digit_count 2 n) = Suc (Suc k)" using pos by (simp add: dc k_def)
    from ih have "2 ^ k \<le> n div 2" "n div 2 < 2 ^ Suc k"
      by (simp_all add: k_def [symmetric] k1)
    then have "2 ^ Suc k \<le> n" "n < 2 ^ Suc (Suc k)"
      by (simp_all; linarith)+
    then show ?thesis by (simp only: k2 k3)
  qed
qed

lemma floor_log2_bounds:
  assumes "1 \<le> a"
  shows "2 powi floor_log 2 a \<le> a" and "a < 2 powi (floor_log 2 a + 1)"
proof -
  from assms have f: "0 < \<lfloor>a\<rfloor>" by simp
  define d where "d = digit_count 2 \<lfloor>a\<rfloor>"
  from digit_count_bounds [OF f] have b: "2 ^ nat (d - 1) \<le> \<lfloor>a\<rfloor>" "\<lfloor>a\<rfloor> < 2 ^ nat d"
    by (simp_all add: d_def)
  have dpos: "1 \<le> d"
    using f digit_count_nonneg [of 2 "\<lfloor>a\<rfloor> div 2"] unfolding d_def
    by (subst digit_count.simps) simp
  have e: "floor_log 2 a = d - 1" using assms by (simp add: floor_log_def d_def)
  have "(2::rat) powi (d - 1) = 2 ^ nat (d - 1)" using dpos by (simp add: power_int_def)
  also have "\<dots> = of_int (2 ^ nat (d - 1))" by simp
  also have "\<dots> \<le> of_int \<lfloor>a\<rfloor>" using b(1) by (simp only: of_int_le_iff)
  also have "\<dots> \<le> a" by simp
  finally show "2 powi floor_log 2 a \<le> a" by (simp add: e)
  have "\<lfloor>a\<rfloor> + 1 \<le> 2 ^ nat d" using b(2) by simp
  then have "(of_int (\<lfloor>a\<rfloor> + 1) :: rat) \<le> of_int (2 ^ nat d)" by (simp only: of_int_le_iff)
  moreover have "a < of_int (\<lfloor>a\<rfloor> + 1)" by linarith
  ultimately have "a < 2 ^ nat d" by simp
  moreover have "(2::rat) powi (d - 1 + 1) = 2 ^ nat d" using dpos by (simp add: power_int_def)
  ultimately show "a < 2 powi (floor_log 2 a + 1)" by (simp add: e)
qed

lemma floor_log2_less:
  assumes "1 \<le> a" and "a < 2 powi k"
  shows "floor_log 2 a < k"
proof (rule ccontr)
  assume "\<not> floor_log 2 a < k"
  then have "k \<le> floor_log 2 a" by simp
  then have "(2::rat) powi k \<le> 2 powi floor_log 2 a"
    by (rule power_int_increasing) simp
  also have "\<dots> \<le> a" using assms(1) by (rule floor_log2_bounds(1))
  finally show False using assms(2) by simp
qed

lemma floor_log2_nonneg:
  assumes "1 \<le> a"
  shows "0 \<le> floor_log 2 a"
proof -
  from assms have f: "0 < \<lfloor>a\<rfloor>" by simp
  have "1 \<le> digit_count 2 \<lfloor>a\<rfloor>"
    using f digit_count_nonneg [of 2 "\<lfloor>a\<rfloor> div 2"] by (subst digit_count.simps) simp
  then show ?thesis using assms by (simp add: floor_log_def)
qed

lemma round_half_even_int: "round_half_even (of_int k) = k"
  by (simp add: round_half_even_def)

text \<open>A value with at most 53 significant bits is its own rounding.\<close>

lemma round_magnitude_exact:
  assumes a: "a = of_int m * 2 powi q" and m: "0 < m" "m < 2 ^ 53" and q: "- 1074 \<le> q"
    and one: "1 \<le> a"
  shows "round_magnitude a = a"
proof -
  define p where "p = max (floor_log 2 a - 52) (- 1074)"
  have "of_int m < (2::rat) ^ 53" using m(2) by (metis of_int_less_iff of_int_numeral of_int_power)
  then have "a < 2 ^ 53 * 2 powi q" unfolding a by (simp add: zero_less_power_int)
  also have "\<dots> = 2 powi (53 + q)" by (simp add: power_int_add)
  finally have "floor_log 2 a < 53 + q" using one by (intro floor_log2_less)
  with q have pq: "p \<le> q" by (simp add: p_def)
  then have dec: "(2::rat) powi q = 2 powi p * 2 ^ nat (q - p)"
    using power_int_add [of "2::rat" p "q - p"] by (simp add: power_int_def)
  have a2: "a = of_int (m * 2 ^ nat (q - p)) * 2 powi p"
    unfolding a dec by simp
  have "a / 2 powi p = of_int (m * 2 ^ nat (q - p))"
    by (subst a2) simp
  then have "round_half_even (a / 2 powi p) = m * 2 ^ nat (q - p)"
    by (simp only: round_half_even_int)
  then have "of_int (round_half_even (a / 2 powi p)) * 2 powi p = a"
    using a2 by simp
  moreover have "a \<noteq> 0" using one by simp
  ultimately show ?thesis
    by (simp add: round_magnitude_def Let_def p_def)
qed

lemma floor_log2_ge:
  assumes "1 \<le> a" and "2 powi k \<le> a"
  shows "k \<le> floor_log 2 a"
proof (rule ccontr)
  assume "\<not> k \<le> floor_log 2 a"
  then have "floor_log 2 a + 1 \<le> k" by simp
  then have "(2::rat) powi (floor_log 2 a + 1) \<le> 2 powi k"
    by (rule power_int_increasing) simp
  moreover have "a < 2 powi (floor_log 2 a + 1)" using assms(1) by (rule floor_log2_bounds(2))
  ultimately show False using assms(2) by simp
qed

lemma round_half_even_near:
  assumes "0 \<le> d" and "d < 1 / 2"
  shows "round_half_even (of_int k + d) = k"
proof -
  have "\<lfloor>of_int k + d\<rfloor> = k" using assms by (simp add: floor_unique)
  then show ?thesis using assms by (simp add: round_half_even_def)
qed

text \<open>From 4 on, \<^verbatim>\<open>Number.EPSILON\<close> is less than half a unit in the last place.\<close>

lemma round_magnitude_absorbs:
  assumes n: "4 \<le> n" "n < 2 ^ 53"
  shows "round_magnitude (of_int n + 1 / 2 ^ 52) = of_int n"
proof -
  define a :: rat where "a = of_int n + 1 / 2 ^ 52"
  define e where "e = floor_log 2 a"
  have n4: "(4::rat) \<le> of_int n" using n(1) by (metis of_int_le_iff of_int_numeral)
  then have one: "1 \<le> a" by (simp add: a_def)
  have "(2::rat) powi 2 \<le> a" using n4 by (simp add: a_def)
  with one have e2: "2 \<le> e" unfolding e_def by (rule floor_log2_ge)
  have "n + 1 \<le> 2 ^ 53" using n(2) by simp
  then have "(of_int (n + 1) :: rat) \<le> 2 ^ 53" by (metis of_int_le_iff of_int_numeral of_int_power)
  then have "a < 2 powi 53" by (simp add: a_def)
  with one have e52: "e < 53" unfolding e_def by (rule floor_log2_less)
  have p: "max (e - 52) (- 1074) = e - 52" using e2 by simp
  have dec: "(1::rat) / 2 powi (e - 52) = 2 ^ nat (52 - e)"
    using e52 power_int_minus_divide [of "2::rat" "e - 52"] by (simp add: power_int_def)
  have frac: "(1::rat) / 2 ^ 52 * 2 ^ nat (52 - e) = 1 / 2 ^ nat e"
  proof -
    have h: "(2::rat) ^ 52 = 2 ^ nat (52 - e) * 2 ^ nat e"
      using e2 e52 by (simp flip: power_add add: nat_diff_distrib del: power_numeral)
    show ?thesis by (subst h) simp
  qed
  have "(2::rat) ^ 2 \<le> 2 ^ nat e" using e2 by (intro power_increasing) auto
  then have small: "(1::rat) / 2 ^ nat e < 1 / 2" by (simp add: field_simps)
  have "a / 2 powi (e - 52) = a * (1 / 2 powi (e - 52))" by simp
  also have "\<dots> = a * 2 ^ nat (52 - e)"
    by (simp only: dec)
  also have "\<dots> = of_int n * 2 ^ nat (52 - e) + 1 / 2 ^ 52 * 2 ^ nat (52 - e)"
    by (simp only: a_def distrib_right)
  also have "\<dots> = of_int (n * 2 ^ nat (52 - e)) + 1 / 2 ^ nat e"
    by (simp only: frac of_int_mult of_int_power of_int_numeral)
  finally have "round_half_even (a / 2 powi (e - 52)) = n * 2 ^ nat (52 - e)"
    using small by (simp only: round_half_even_near zero_le_divide_1_iff zero_le_power zero_le_numeral)
  moreover have "of_int (n * 2 ^ nat (52 - e)) * 2 powi (e - 52) = (of_int n :: rat)"
    using dec by (simp add: field_simps)
  moreover have "a \<noteq> 0" using one by simp
  ultimately have "round_magnitude a = of_int n"
    by (simp add: round_magnitude_def Let_def p e_def [symmetric])
  then show ?thesis by (simp add: a_def)
qed

text \<open>
  The rounding leaves every integer from 0 to 9007 as it is: such an integer times
  \<^verbatim>\<open>1e12\<close> still has at most 53 bits.
\<close>

lemma rounded_integer:
  assumes "0 \<le> n" and "n \<le> 9007"
  shows "rounded (Finite False (of_int n)) = Finite False (of_int n)"
proof -
  consider "n = 0" | "n = 1" | "n = 2" | "n = 3" | "4 \<le> n"
    using assms(1) by linarith
  then show ?thesis
  proof cases
    case 1
    then show ?thesis by (simp add: num_ev)
  next
    case 2
    then show ?thesis by (simp add: num_ev)
  next
    case 3
    then show ?thesis by (simp add: num_ev)
  next
    case 4
    then show ?thesis by (simp add: num_ev)
  next
    case 5
    have pos: "(0::rat) < of_int n" "(1::rat) \<le> of_int n" using 5 by simp_all
    have small: "(of_int n :: rat) < 2 ^ 1024"
    proof -
      have "n < 2 ^ 1024" using assms(2) by simp
      then show ?thesis by (metis of_int_less_iff of_int_numeral of_int_power)
    qed
    have big: "n * 10 ^ 12 < 2 ^ 53" using assms(2) by simp
    have "round_magnitude (of_int n + 1 / 2 ^ 52) = of_int n"
      using 5 assms(2) by (intro round_magnitude_absorbs) simp_all
    moreover have rpos: "(0::rat) < of_int n + 1 / 2 ^ 52"
      using pos(1) by (intro add_pos_pos) simp_all
    moreover from rpos have "of_int n + 1 / 2 ^ 52 \<noteq> (0::rat)"
      "\<not> of_int n + 1 / 2 ^ 52 < (0::rat)" "\<bar>of_int n + 1 / 2 ^ 52 :: rat\<bar> = of_int n + 1 / 2 ^ 52"
      by simp_all
    ultimately have add: "num_add (Finite False (of_int n)) Number_EPSILON = Finite False (of_int n)"
      using small by (simp add: Number_EPSILON_def signed_def fl_def Let_def del: power_numeral)
    have "round_magnitude (of_int n * 10 ^ 12) = of_int n * 10 ^ 12"
    proof (rule round_magnitude_exact [where m = "n * 10 ^ 12" and q = 0])
      show "(of_int n :: rat) * 10 ^ 12 = of_int (n * 10 ^ 12) * 2 powi 0" by simp
      show "0 < n * 10 ^ 12" using 5 by simp
      show "n * 10 ^ 12 < 2 ^ 53" by (rule big)
      show "- 1074 \<le> (0::int)" by simp
      show "(1::rat) \<le> of_int n * 10 ^ 12" using pos(2) by (simp add: mult_ge1_I)
    qed
    moreover have "(of_int n :: rat) * 10 ^ 12 < 2 ^ 1024"
    proof -
      have "n * 10 ^ 12 < 2 ^ 1024" using assms(2) by simp
      then have "(of_int (n * 10 ^ 12) :: rat) < 2 ^ 1024"
        by (metis of_int_less_iff of_int_numeral of_int_power)
      then show ?thesis by simp
    qed
    ultimately have mul: "num_mul (Finite False (of_int n)) lit_1e12 = Finite False (of_int (n * 10 ^ 12))"
      by (simp add: lit_1e12_def fl_def Let_def del: power_numeral)
    have "0 < n * 10 ^ 12" using 5 by simp
    then have rnd: "Math_round (Finite False (of_int (n * 10 ^ 12))) =
        Finite False (of_int (n * 10 ^ 12))"
      by (simp add: signed_def Let_def floor_rat_one del: power_numeral of_int_mult)
    have "round_magnitude (of_int n) = of_int n"
    proof (rule round_magnitude_exact [where m = n and q = 0])
      show "(of_int n :: rat) = of_int n * 2 powi 0" by simp
      show "0 < n" using 5 by simp
      show "n < 2 ^ 53" using assms(2) by simp
      show "- 1074 \<le> (0::int)" by simp
      show "(1::rat) \<le> of_int n" by (rule pos(2))
    qed
    then have dv: "num_div (Finite False (of_int (n * 10 ^ 12))) lit_1e12 = Finite False (of_int n)"
      using small by (simp add: lit_1e12_def fl_def Let_def del: power_numeral)
    show ?thesis
      by (simp only: rounded_def add mul rnd dv)
  qed
qed

section \<open>The examples, evaluated\<close>

lemma isFinite_Finite: "isFinite (Finite s a)"
  by simp

text \<open>The path of \<^verbatim>\<open>safeEval\<close> to a rounded Number, one premise for each step.\<close>

lemma safeEval_finite:
  assumes "normalized s = t" and "\<not> blocked_test t" and "allowed_test t"
    and "math_evaluate t = Returned (NumberValue x)" and "isFinite x"
    and "Number_toString (rounded x) = r"
  shows "safeEval math_evaluate s = Inr r"
  using assms by (simp add: safeEval_def)

lemma normalized_2plus2: "normalized (js ''2+2'') = js ''2+2''"
  by (simp add: str_ev)

lemma accepted_2plus2: "\<not> blocked_test (js ''2+2'')" "allowed_test (js ''2+2'')"
  by (simp_all add: str_ev)

lemma normalized_pow: "normalized (js ''2^10'') = js ''2^10''"
  by (simp add: str_ev)

lemma accepted_pow: "\<not> blocked_test (js ''2^10'')" "allowed_test (js ''2^10'')"
  by (simp_all add: str_ev)

lemma normalized_product: "normalized (js ''12'' @ [0xD7] @ js ''(3+4)'') = js ''12*(3+4)''"
  by (simp add: str_ev)

lemma accepted_product: "\<not> blocked_test (js ''12*(3+4)'')" "allowed_test (js ''12*(3+4)'')"
  by (simp_all add: str_ev)

lemma normalized_sum: "normalized (js ''12+3'') = js ''12+3''"
  by (simp add: str_ev)

lemma accepted_sum: "\<not> blocked_test (js ''12+3'')" "allowed_test (js ''12+3'')"
  by (simp_all add: str_ev)

lemma normalized_pi: "normalized (js ''pi'') = js ''pi''"
  by (simp add: str_ev)

lemma accepted_pi: "\<not> blocked_test (js ''pi'')" "allowed_test (js ''pi'')"
  by (simp_all add: str_ev)

lemma normalized_1e300: "normalized (js ''1e300'') = js ''1e300''"
  by (simp add: str_ev)

lemma accepted_1e300: "\<not> blocked_test (js ''1e300'')" "allowed_test (js ''1e300'')"
  by (simp_all add: str_ev)

lemma normalized_long: "normalized (js ''4223.926407041819'') = js ''4223.926407041819''"
  by (simp add: str_ev)

lemma accepted_long:
  "\<not> blocked_test (js ''4223.926407041819'')" "allowed_test (js ''4223.926407041819'')"
  by (simp_all add: str_ev)

lemma normalized_short: "normalized (js ''4223.92640704182'') = js ''4223.92640704182''"
  by (simp add: str_ev)

lemma accepted_short:
  "\<not> blocked_test (js ''4223.92640704182'')" "allowed_test (js ''4223.92640704182'')"
  by (simp_all add: str_ev)

lemma normalized_tenth: "normalized (js ''4096.1'') = js ''4096.1''"
  by (simp add: str_ev)

lemma accepted_tenth: "\<not> blocked_test (js ''4096.1'')" "allowed_test (js ''4096.1'')"
  by (simp_all add: str_ev)

lemma normalized_drifted: "normalized (js ''4096.100000000001'') = js ''4096.100000000001''"
  by (simp add: str_ev)

lemma accepted_drifted:
  "\<not> blocked_test (js ''4096.100000000001'')" "allowed_test (js ''4096.100000000001'')"
  by (simp_all add: str_ev)

lemma rounded_4: "rounded (Finite False 4) = Finite False 4"
  by (simp add: num_ev)

lemma shown_4: "Number_toString (rounded (Finite False 4)) = js ''4''"
  by (simp add: num_ev show_ev js_def)

lemma shown_1024: "Number_toString (rounded (Finite False 1024)) = js ''1024''"
  by (simp add: num_ev show_ev js_def)

lemma shown_84: "Number_toString (rounded (Finite False 84)) = js ''84''"
  by (simp add: num_ev show_ev js_def)

lemma shown_15: "Number_toString (rounded (Finite False 15)) = js ''15''"
  by (simp add: num_ev show_ev js_def)

text \<open>\<^verbatim>\<open>Math.PI\<close> is \<open>884279719003555 / 2 ^ 48\<close>.\<close>

lemma shown_pi:
  "Number_toString (rounded (Finite False (884279719003555 / 2 ^ 48))) = js ''3.14159265359''"
  by (simp add: num_ev show_ev js_def)

text \<open>
  The literal \<^verbatim>\<open>1e300\<close> is a finite Number; multiplied by \<^verbatim>\<open>1e12\<close> it is beyond the
  largest one.
\<close>

lemma literal_1e300: "fl False (10 ^ 300) = Finite False (6724873095247260 * 2 ^ 944)"
  by (simp add: num_ev)

lemma rounded_1e300: "rounded (Finite False (6724873095247260 * 2 ^ 944)) = Infinity False"
  by (simp add: num_ev)

text \<open>
  The literals \<^verbatim>\<open>4223.926407041819\<close> and \<^verbatim>\<open>4223.92640704182\<close>, and what the rounding
  makes of them: the product with \<^verbatim>\<open>1e12\<close> falls on a half, which \<^verbatim>\<open>Math.round\<close> takes
  up.
\<close>

lemma literal_long:
  "fl False (4223926407041819 / 10 ^ 12) = Finite False (2322128099706291 / 2 ^ 39)"
  by (simp add: num_ev)

lemma shown_long:
  "Number_toString (rounded (Finite False (2322128099706291 / 2 ^ 39))) = js ''4223.92640704182''"
  by (simp add: num_ev show_ev js_def)

lemma literal_short:
  "fl False (422392640704182 / 10 ^ 11) = Finite False (4644256199412583 / 2 ^ 40)"
  by (simp add: num_ev)

lemma shown_short:
  "Number_toString (rounded (Finite False (4644256199412583 / 2 ^ 40))) = js ''4223.926407041821''"
  by (simp add: num_ev show_ev js_def)

text \<open>
  The same on the literals \<^verbatim>\<open>4096.1\<close> and \<^verbatim>\<open>4096.100000000001\<close>: the sum with
  \<^verbatim>\<open>Number.EPSILON\<close> is the Number itself, the product with \<^verbatim>\<open>1e12\<close> lies between \<open>2 ^ 51\<close>
  and \<open>2 ^ 52\<close>, where the Numbers are the multiples of a half, and it is the half above
  the integer wanted.
\<close>

lemma literal_tenth: "fl False (40961 / 10) = Finite False (2251854789266637 / 2 ^ 39)"
  by (simp add: num_ev)

lemma shown_tenth:
  "Number_toString (rounded (Finite False (2251854789266637 / 2 ^ 39))) = js ''4096.100000000001''"
  by (simp add: num_ev show_ev js_def)

lemma literal_drifted:
  "fl False (4096100000000001 / 10 ^ 12) = Finite False (4503709578533275 / 2 ^ 40)"
  by (simp add: num_ev)

lemma shown_drifted:
  "Number_toString (rounded (Finite False (4503709578533275 / 2 ^ 40))) = js ''4096.100000000002''"
  by (simp add: num_ev show_ev js_def)

lemma sum_evaluates:
  assumes "math_evaluate (js ''12+3'') = Returned (NumberValue (Finite False 15))"
  shows "safeEval math_evaluate (js ''12+3'') = Inr (js ''15'')"
  by (rule safeEval_finite [where math_evaluate = math_evaluate,
        OF normalized_sum accepted_sum assms isFinite_Finite shown_15])

text \<open>
  The rendering of a finite rounded value reaches the engine as it is; what
  \<^verbatim>\<open>safeEval\<close> returns on it is decided by the Number the engine reads it as.
\<close>

lemma rendering_reevaluates:
  assumes "rounded x = Finite sg a" and "r = Number_toString (rounded x)"
    and "math_evaluate r = Returned (NumberValue y)" and "isFinite y"
    and "Number_toString (rounded y) = r'"
  shows "safeEval math_evaluate r = Inr r'"
proof -
  from assms(1) have "0 \<le> a" by (rule rounded_nonneg)
  then have "set (Number_toString (Finite sg a)) \<subseteq> set number_chars"
    by (rule Number_toString_number_chars)
  with assms(1,2) have chars: "set r \<subseteq> set number_chars" by simp
  show ?thesis
  proof (rule safeEval_finite [where math_evaluate = math_evaluate])
    show "normalized r = r" using chars by (rule normalized_number_chars)
    show "\<not> blocked_test r" using chars by (rule not_blocked_number_chars)
    show "allowed_test r" using chars by (rule allowed_number_chars)
    show "math_evaluate r = Returned (NumberValue y)" by (rule assms(3))
    show "isFinite y" by (rule assms(4))
    show "Number_toString (rounded y) = r'" by (rule assms(5))
  qed
qed

text \<open>What a successful numeric evaluation returns.\<close>

lemma safeEval_numeric_output:
  assumes "math_evaluate (normalized s) = Returned (NumberValue x)"
    and "safeEval math_evaluate s = Inr r"
  shows "r = Number_toString (rounded x)"
  using assms by (simp add: safeEval_def Let_def split: if_splits)

section \<open>The handler on a session\<close>

lemma callback_query_session:
  "fst (callback_query math_evaluate t chatId dat state) chatId =
     Some (fst (on_callback math_evaluate t dat
       (case state chatId of Some s \<Rightarrow> s | None \<Rightarrow> fresh)))"
  by (simp add: callback_query_def split: prod.split)

lemma deliver_fields [simp]:
  "expr (fst (deliver t s)) = expr s" "result (fst (deliver t s)) = result s"
  by (simp_all add: deliver_def resend_def split: option.split)

lemma on_callback_key:
  "expr (fst (on_callback math_evaluate t (js ''k:'' @ key) s)) =
     expr (press_key math_evaluate key s)"
  "result (fst (on_callback math_evaluate t (js ''k:'' @ key) s)) =
     result (press_key math_evaluate key s)"
  by (simp_all add: on_callback_def js_def)


lemma press_append:
  assumes "key \<noteq> js ''C''" and "key \<noteq> js ''BS''" and "key \<noteq> js ''=''"
  shows "press_key math_evaluate key s = s\<lparr>expr := expr s @ key\<rparr>"
  using assms by (simp add: press_key_def)

lemma append_keys_plain:
  "key \<in> set append_keys \<Longrightarrow> key \<noteq> js ''C'' \<and> key \<noteq> js ''BS'' \<and> key \<noteq> js ''=''"
  by (auto simp: append_keys_def js_def)


section \<open>The claims\<close>

text \<open>
  C1, as stated, fails: \<^verbatim>\<open>blocked.test\<close> runs before \<^verbatim>\<open>allowed.test\<close>. The input
  \<^verbatim>\<open>import\<close> has code units outside the allowlist (\<^verbatim>\<open>m\<close>, \<^verbatim>\<open>o\<close>, \<^verbatim>\<open>r\<close>, \<^verbatim>\<open>t\<close>) and is
  rejected as UnsupportedConstruct, not as InvalidCharacters.
\<close>

theorem denylist_first_counterexample:
  "\<not> allowed_test (normalized (js ''import'')) \<and>
   safeEval mathjs_sample (js ''import'') = Inl UnsupportedConstruct"
  by (simp add: safeEval_def str_ev)

text \<open>
  C1, amended: for every input whose normalized form has at least one code unit
  outside the allowlist and contains no identifier of the denylist
  (case-insensitively), \<^verbatim>\<open>safeEval\<close> throws \<^verbatim>\<open>Invalid characters.\<close> (InvalidCharacters),
  whatever the engine is: it is never called.
\<close>

theorem invalid_characters_rejected:
  assumes "\<exists>c\<in>set (normalized s). \<not> allowed_char c"
    and "\<forall>w\<in>set denylist. \<not> contains_ci w (normalized s)"
  shows "safeEval math_evaluate s = Inl InvalidCharacters"
proof -
  from assms(2) have "\<not> blocked_test (normalized s)"
    by (simp add: blocked_test_iff)
  moreover from assms(1) have "\<not> allowed_test (normalized s)"
    by (auto simp: allowed_test_def list_all_iff)
  ultimately show ?thesis
    by (simp add: safeEval_def)
qed

theorem invalid_characters_rejected_witness:
  "safeEval mathjs_sample (js ''2+x'') = Inl InvalidCharacters"
proof (rule invalid_characters_rejected)
  show "\<exists>c\<in>set (normalized (js ''2+x'')). \<not> allowed_char c"
    by (simp add: str_ev)
  show "\<forall>w\<in>set denylist. \<not> contains_ci w (normalized (js ''2+x''))"
    by (simp add: str_ev)
qed

text \<open>
  C2: for every input whose normalized form contains, case-insensitively, an
  identifier of the denylist, \<^verbatim>\<open>safeEval\<close> throws \<^verbatim>\<open>Unsupported expression.\<close>
  (UnsupportedConstruct).
\<close>

theorem denylisted_rejected:
  assumes "w \<in> set denylist" and "contains_ci w (normalized s)"
  shows "safeEval math_evaluate s = Inl UnsupportedConstruct"
proof -
  from assms have "blocked_test (normalized s)"
    unfolding blocked_test_iff by blast
  then show ?thesis
    by (simp add: safeEval_def)
qed

theorem denylisted_rejected_witness:
  "safeEval mathjs_sample (js '' 2*Index '') = Inl UnsupportedConstruct"
proof (rule denylisted_rejected)
  show "js ''index'' \<in> set denylist"
    by (simp add: denylist_def)
  show "contains_ci (js ''index'') (normalized (js '' 2*Index ''))"
    by (simp add: str_ev)
qed

text \<open>
  C3, as stated, fails: \<^verbatim>\<open>safeEval\<close> has no check for an empty expression. The empty
  string passes both regular expressions and goes to the engine; mathjs returns
  \<^verbatim>\<open>undefined\<close> for it, and \<^verbatim>\<open>safeEval\<close> returns the string \<^verbatim>\<open>undefined\<close> as a success.
\<close>

theorem blank_input_counterexample:
  "safeEval mathjs_sample [] = Inr (js ''undefined'') \<and>
   safeEval mathjs_sample (js ''   '') = Inr (js ''undefined'')"
  by (simp add: safeEval_def mathjs_sample_def str_ev)

text \<open>
  C3, amended: for every input that is empty or consists only of white space,
  \<^verbatim>\<open>safeEval\<close> hands the empty string to the engine and returns what the engine's
  answer gives: the engine's error if it throws, NonFinite for a Number that is not
  finite, the rounded rendering of a finite Number, and \<^verbatim>\<open>String(result)\<close> of any other
  value (\<^verbatim>\<open>undefined\<close> for mathjs).
\<close>

theorem blank_input_goes_to_engine:
  assumes "\<forall>c\<in>set s. is_space c"
  shows "safeEval math_evaluate s =
     (case math_evaluate [] of
        Threw m \<Rightarrow> Inl (EvaluationFailure m)
      | Returned (NumberValue x) \<Rightarrow>
          if isFinite x then Inr (Number_toString (rounded x)) else Inl NonFinite
      | Returned v \<Rightarrow> Inr (ToString v))"
proof -
  from assms have "normalized s = []" by (rule normalized_spaces)
  moreover have "\<not> blocked_test []" by (simp add: denylist_def js_def)
  ultimately show ?thesis
    by (simp add: safeEval_def allowed_test_def split: engine_result.split engine_value.split)
qed

theorem blank_input_goes_to_engine_witness:
  "safeEval mathjs_sample [0x20, 0x09, 0xA0] = Inr (js ''undefined'')"
proof -
  have "\<forall>c\<in>set [0x20, 0x09, 0xA0]. is_space c" by (simp add: is_space_def)
  from blank_input_goes_to_engine [OF this, of mathjs_sample] show ?thesis
    by (simp add: mathjs_sample_def)
qed

text \<open>
  C4: for every input that reaches the engine and for which the engine returns a
  Number that is not finite (an infinity or NaN), \<^verbatim>\<open>safeEval\<close> throws
  \<^verbatim>\<open>Result is not finite.\<close> (NonFinite) and returns no value. The witness is the input
  \<^verbatim>\<open>10/0\<close>, which mathjs evaluates to \<^verbatim>\<open>Infinity\<close>.
\<close>

theorem non_finite_rejected:
  assumes "\<not> blocked_test (normalized s)" and "allowed_test (normalized s)"
    and "math_evaluate (normalized s) = Returned (NumberValue x)" and "\<not> isFinite x"
  shows "safeEval math_evaluate s = Inl NonFinite"
  using assms by (simp add: safeEval_def)

theorem non_finite_rejected_witness:
  "safeEval mathjs_sample (js ''10/0'') = Inl NonFinite"
proof (rule non_finite_rejected)
  show "\<not> blocked_test (normalized (js ''10/0''))" by (simp add: str_ev)
  show "allowed_test (normalized (js ''10/0''))" by (simp add: str_ev)
  show "mathjs_sample (normalized (js ''10/0'')) = Returned (NumberValue (Infinity False))"
    by (simp add: mathjs_sample_def str_ev)
  show "\<not> isFinite (Infinity False)" by simp
qed

text \<open>
  C5: where the engine evaluates \<^verbatim>\<open>2+2\<close> to 4, \<^verbatim>\<open>2^10\<close> to 1024 and \<^verbatim>\<open>12*(3+4)\<close> to 84,
  \<^verbatim>\<open>safeEval\<close> returns \<^verbatim>\<open>4\<close> on \<^verbatim>\<open>2+2\<close>, \<^verbatim>\<open>1024\<close> on \<^verbatim>\<open>2^10\<close>, and \<^verbatim>\<open>84\<close> on the input
  \<^verbatim>\<open>12\<close>, U+00D7, \<^verbatim>\<open>(3+4)\<close>, whose multiplication sign is first replaced by \<^verbatim>\<open>*\<close>, the
  rest of the expression staying as it is.
\<close>

theorem examples_evaluate:
  assumes "math_evaluate (js ''2+2'') = Returned (NumberValue (Finite False 4))"
    and "math_evaluate (js ''2^10'') = Returned (NumberValue (Finite False 1024))"
    and "math_evaluate (js ''12*(3+4)'') = Returned (NumberValue (Finite False 84))"
  shows "safeEval math_evaluate (js ''2+2'') = Inr (js ''4'') \<and>
         safeEval math_evaluate (js ''2^10'') = Inr (js ''1024'') \<and>
         normalized (js ''12'' @ [0xD7] @ js ''(3+4)'') = js ''12*(3+4)'' \<and>
         safeEval math_evaluate (js ''12'' @ [0xD7] @ js ''(3+4)'') = Inr (js ''84'')"
proof (intro conjI)
  show "safeEval math_evaluate (js ''2+2'') = Inr (js ''4'')"
    by (rule safeEval_finite [where math_evaluate = math_evaluate,
          OF normalized_2plus2 accepted_2plus2 assms(1) isFinite_Finite shown_4])
  show "safeEval math_evaluate (js ''2^10'') = Inr (js ''1024'')"
    by (rule safeEval_finite [where math_evaluate = math_evaluate,
          OF normalized_pow accepted_pow assms(2) isFinite_Finite shown_1024])
  show "normalized (js ''12'' @ [0xD7] @ js ''(3+4)'') = js ''12*(3+4)''"
    by (rule normalized_product)
  show "safeEval math_evaluate (js ''12'' @ [0xD7] @ js ''(3+4)'') = Inr (js ''84'')"
    by (rule safeEval_finite [where math_evaluate = math_evaluate,
          OF normalized_product accepted_product assms(3) isFinite_Finite shown_84])
qed

theorem examples_evaluate_witness:
  "safeEval mathjs_sample (js ''2+2'') = Inr (js ''4'') \<and>
   safeEval mathjs_sample (js ''2^10'') = Inr (js ''1024'') \<and>
   normalized (js ''12'' @ [0xD7] @ js ''(3+4)'') = js ''12*(3+4)'' \<and>
   safeEval mathjs_sample (js ''12'' @ [0xD7] @ js ''(3+4)'') = Inr (js ''84'')"
proof (rule examples_evaluate)
  show "mathjs_sample (js ''2+2'') = Returned (NumberValue (Finite False 4))"
    by (simp add: mathjs_sample_def js_def)
  show "mathjs_sample (js ''2^10'') = Returned (NumberValue (Finite False 1024))"
    by (simp add: mathjs_sample_def js_def)
  show "mathjs_sample (js ''12*(3+4)'') = Returned (NumberValue (Finite False 84))"
    by (simp add: mathjs_sample_def js_def)
qed

text \<open>
  C6 holds on \<^verbatim>\<open>pi\<close> and fails on large results: \<^verbatim>\<open>isFinite\<close> is asked of \<^verbatim>\<open>result\<close>,
  not of \<^verbatim>\<open>rounded\<close>. Where the engine reads the literal \<^verbatim>\<open>1e300\<close> as the nearest
  Number, which is finite, the product with \<^verbatim>\<open>1e12\<close> overflows and \<^verbatim>\<open>safeEval\<close> returns
  the string \<^verbatim>\<open>Infinity\<close> as a success.
\<close>

theorem overflow_returns_Infinity:
  assumes "math_evaluate (js ''1e300'') = Returned (NumberValue (fl False (10 ^ 300)))"
  shows "isFinite (fl False (10 ^ 300)) \<and>
         safeEval math_evaluate (js ''1e300'') = Inr (js ''Infinity'')"
proof
  show "isFinite (fl False (10 ^ 300))"
    unfolding literal_1e300 by (rule isFinite_Finite)
  have "Number_toString (rounded (Finite False (6724873095247260 * 2 ^ 944))) = js ''Infinity''"
    unfolding rounded_1e300 by simp
  from safeEval_finite [where math_evaluate = math_evaluate, OF normalized_1e300 accepted_1e300
      assms [unfolded literal_1e300] isFinite_Finite this]
  show "safeEval math_evaluate (js ''1e300'') = Inr (js ''Infinity'')" .
qed

theorem overflow_returns_Infinity_witness:
  "isFinite (fl False (10 ^ 300)) \<and> safeEval mathjs_sample (js ''1e300'') = Inr (js ''Infinity'')"
proof (rule overflow_returns_Infinity)
  have "mathjs_sample [0x31, 0x65, 0x33, 0x30, 0x30] = Returned (NumberValue (fl False (10 ^ 300)))"
    unfolding mathjs_sample_def js_def by (simp del: power_numeral)
  then show "mathjs_sample (js ''1e300'') = Returned (NumberValue (fl False (10 ^ 300)))"
    by (simp add: js_def del: power_numeral)
qed

text \<open>
  An example of the rounding at work: where the engine evaluates \<^verbatim>\<open>pi\<close> to
  \<^verbatim>\<open>Math.PI\<close>, \<^verbatim>\<open>safeEval\<close> returns \<^verbatim>\<open>3.14159265359\<close>.
\<close>

theorem pi_evaluates:
  assumes "math_evaluate (js ''pi'') =
     Returned (NumberValue (Finite False (884279719003555 / 2 ^ 48)))"
  shows "safeEval math_evaluate (js ''pi'') = Inr (js ''3.14159265359'')"
  by (rule safeEval_finite [where math_evaluate = math_evaluate,
        OF normalized_pi accepted_pi assms isFinite_Finite shown_pi])

theorem pi_evaluates_witness:
  "safeEval mathjs_sample (js ''pi'') = Inr (js ''3.14159265359'')"
proof (rule pi_evaluates)
  show "mathjs_sample (js ''pi'') =
     Returned (NumberValue (Finite False (884279719003555 / 2 ^ 48)))"
    by (simp add: mathjs_sample_def js_def)
qed

text \<open>
  C7 fails on the code: the line that rounds works in binary64 arithmetic, where the
  product with \<^verbatim>\<open>1e12\<close> can be a half that \<^verbatim>\<open>Math.round\<close> takes up, so that the output of
  \<^verbatim>\<open>safeEval\<close> is not the result rounded to 12 places and is not a fixed point of it.
  Where the engine reads a decimal literal as the nearest Number, \<^verbatim>\<open>safeEval\<close>
  returns \<^verbatim>\<open>4096.100000000001\<close> on \<^verbatim>\<open>4096.1\<close> and \<^verbatim>\<open>4096.100000000002\<close> on that
  output; it returns \<^verbatim>\<open>4223.92640704182\<close> on \<^verbatim>\<open>4223.926407041819\<close> and
  \<^verbatim>\<open>4223.926407041821\<close> on that output.
\<close>

theorem reevaluation_drifts:
  assumes "math_evaluate (js ''4096.1'') = Returned (NumberValue (fl False (40961 / 10)))"
    and "math_evaluate (js ''4096.100000000001'') =
      Returned (NumberValue (fl False (4096100000000001 / 10 ^ 12)))"
    and "math_evaluate (js ''4223.926407041819'') =
      Returned (NumberValue (fl False (4223926407041819 / 10 ^ 12)))"
    and "math_evaluate (js ''4223.92640704182'') =
      Returned (NumberValue (fl False (422392640704182 / 10 ^ 11)))"
  shows "safeEval math_evaluate (js ''4096.1'') = Inr (js ''4096.100000000001'') \<and>
         safeEval math_evaluate (js ''4096.100000000001'') = Inr (js ''4096.100000000002'') \<and>
         safeEval math_evaluate (js ''4223.926407041819'') = Inr (js ''4223.92640704182'') \<and>
         safeEval math_evaluate (js ''4223.92640704182'') = Inr (js ''4223.926407041821'')"
proof (intro conjI)
  show "safeEval math_evaluate (js ''4096.1'') = Inr (js ''4096.100000000001'')"
    by (rule safeEval_finite [where math_evaluate = math_evaluate,
          OF normalized_tenth accepted_tenth assms(1) [unfolded literal_tenth]
            isFinite_Finite shown_tenth])
  show "safeEval math_evaluate (js ''4096.100000000001'') = Inr (js ''4096.100000000002'')"
    by (rule safeEval_finite [where math_evaluate = math_evaluate,
          OF normalized_drifted accepted_drifted assms(2) [unfolded literal_drifted]
            isFinite_Finite shown_drifted])
  show "safeEval math_evaluate (js ''4223.926407041819'') = Inr (js ''4223.92640704182'')"
    by (rule safeEval_finite [where math_evaluate = math_evaluate,
          OF normalized_long accepted_long assms(3) [unfolded literal_long]
            isFinite_Finite shown_long])
  show "safeEval math_evaluate (js ''4223.92640704182'') = Inr (js ''4223.926407041821'')"
    by (rule safeEval_finite [where math_evaluate = math_evaluate,
          OF normalized_short accepted_short assms(4) [unfolded literal_short]
            isFinite_Finite shown_short])
qed

theorem reevaluation_drifts_witness:
  "safeEval mathjs_sample (js ''4096.1'') = Inr (js ''4096.100000000001'') \<and>
   safeEval mathjs_sample (js ''4096.100000000001'') = Inr (js ''4096.100000000002'') \<and>
   safeEval mathjs_sample (js ''4223.926407041819'') = Inr (js ''4223.92640704182'') \<and>
   safeEval mathjs_sample (js ''4223.92640704182'') = Inr (js ''4223.926407041821'')"
proof (rule reevaluation_drifts)
  show "mathjs_sample (js ''4096.1'') = Returned (NumberValue (fl False (40961 / 10)))"
    by (simp add: mathjs_sample_def js_def)
  show "mathjs_sample (js ''4096.100000000001'') =
      Returned (NumberValue (fl False (4096100000000001 / 10 ^ 12)))"
    by (simp add: mathjs_sample_def js_def)
  show "mathjs_sample (js ''4223.926407041819'') =
      Returned (NumberValue (fl False (4223926407041819 / 10 ^ 12)))"
    by (simp add: mathjs_sample_def js_def)
  show "mathjs_sample (js ''4223.92640704182'') =
      Returned (NumberValue (fl False (422392640704182 / 10 ^ 11)))"
    by (simp add: mathjs_sample_def js_def)
qed

text \<open>
  Whatever finite Number it is, its rendering has no white space at either end, none
  of the replaced glyphs and no comma, no identifier of the denylist, and only code
  units of the allowlist; \<^verbatim>\<open>safeEval\<close> hands it to the engine as it is.
\<close>

theorem rendering_accepted:
  assumes "0 \<le> a"
  shows "normalized (Number_toString (Finite sg a)) = Number_toString (Finite sg a) \<and>
         \<not> blocked_test (Number_toString (Finite sg a)) \<and>
         allowed_test (Number_toString (Finite sg a))"
proof -
  from assms have "set (Number_toString (Finite sg a)) \<subseteq> set number_chars"
    by (rule Number_toString_number_chars)
  then show ?thesis
    by (simp add: normalized_number_chars not_blocked_number_chars allowed_number_chars)
qed

theorem rendering_accepted_witness:
  "normalized (js ''-0.5'') = js ''-0.5'' \<and> \<not> blocked_test (js ''-0.5'') \<and>
   allowed_test (js ''-0.5'')"
proof -
  have "Number_toString (Finite True (1 / 2)) = js ''-0.5''"
    by (simp add: num_ev show_ev js_def)
  with rendering_accepted [of "1 / 2" True] show ?thesis
    by simp
qed

text \<open>
  The outputs that are integers from 0 to 9007 re-evaluate to themselves: the
  rounding leaves such a Number as it is.
\<close>

theorem integer_result_reevaluates:
  assumes "0 \<le> n" and "n \<le> 9007"
    and "math_evaluate (normalized s) = Returned (NumberValue x)"
    and "rounded x = Finite False (of_int n)"
    and "safeEval math_evaluate s = Inr r"
    and "math_evaluate r = Returned (NumberValue (Finite False (of_int n)))"
  shows "safeEval math_evaluate r = Inr r"
proof -
  from assms(3,5) have r: "r = Number_toString (rounded x)"
    by (rule safeEval_numeric_output)
  from assms(1,2) have "rounded (Finite False (of_int n)) = Finite False (of_int n)"
    by (rule rounded_integer)
  with r have again: "Number_toString (rounded (Finite False (of_int n))) = r"
    by (simp only: assms(4))
  from assms(4) r assms(6) isFinite_Finite again show ?thesis
    by (rule rendering_reevaluates)
qed

theorem integer_result_reevaluates_witness:
  "safeEval mathjs_sample (js ''15'') = Inr (js ''15'')"
proof (rule integer_result_reevaluates [where n = 15 and s = "js ''12+3''" and x = "Finite False 15"])
  show "(0::int) \<le> 15" "(15::int) \<le> 9007" by simp_all
  have sample: "mathjs_sample (js ''12+3'') = Returned (NumberValue (Finite False 15))"
    by (simp add: mathjs_sample_def js_def)
  then show "mathjs_sample (normalized (js ''12+3'')) = Returned (NumberValue (Finite False 15))"
    unfolding normalized_sum .
  show "rounded (Finite False 15) = Finite False (of_int 15)"
    by (simp add: num_ev)
  show "safeEval mathjs_sample (js ''12+3'') = Inr (js ''15'')"
    using sample by (rule sum_evaluates)
  show "mathjs_sample (js ''15'') = Returned (NumberValue (Finite False (of_int 15)))"
    by (simp add: mathjs_sample_def js_def)
qed




text \<open>
  C9: whatever the session, the engine and the delivery, a key of the keypad other
  than \<^verbatim>\<open>C\<close>, \<^verbatim>\<open>BS\<close> and \<^verbatim>\<open>=\<close> appends its text to \<^verbatim>\<open>expr\<close> and leaves \<^verbatim>\<open>result\<close>;
  Backspace drops the last code unit of \<^verbatim>\<open>expr\<close> and leaves \<^verbatim>\<open>result\<close>; Equals leaves
  \<^verbatim>\<open>expr\<close> and sets \<^verbatim>\<open>result\<close> to the empty string when \<^verbatim>\<open>expr\<close> is empty, and otherwise to
  the value \<^verbatim>\<open>safeEval\<close> returns or to \<^verbatim>\<open>Error: \<close> followed by the message of the error
  it throws.
\<close>

theorem key_frame_conditions:
  "(key \<in> set append_keys \<longrightarrow>
      expr (fst (on_callback math_evaluate t (js ''k:'' @ key) s)) = expr s @ key \<and>
      result (fst (on_callback math_evaluate t (js ''k:'' @ key) s)) = result s) \<and>
   expr (fst (on_callback math_evaluate t (js ''k:BS'') s)) = butlast (expr s) \<and>
   result (fst (on_callback math_evaluate t (js ''k:BS'') s)) = result s \<and>
   expr (fst (on_callback math_evaluate t (js ''k:='') s)) = expr s \<and>
   result (fst (on_callback math_evaluate t (js ''k:='') s)) =
     (if expr s = [] then []
      else case safeEval math_evaluate (expr s) of
             Inr v \<Rightarrow> v
           | Inl e \<Rightarrow> js ''Error: '' @ message e)"
proof (intro conjI impI)
  assume "key \<in> set append_keys"
  then have k: "press_key math_evaluate key s = s\<lparr>expr := expr s @ key\<rparr>"
    using append_keys_plain [of key] by (simp add: press_append)
  show "expr (fst (on_callback math_evaluate t (js ''k:'' @ key) s)) = expr s @ key"
    by (simp add: on_callback_key k)
  show "result (fst (on_callback math_evaluate t (js ''k:'' @ key) s)) = result s"
    by (simp add: on_callback_key k)
next
  show "expr (fst (on_callback math_evaluate t (js ''k:BS'') s)) = butlast (expr s)"
    using on_callback_key(1) [of math_evaluate t "js ''BS''" s]
    by (simp add: press_key_def js_def)
  show "result (fst (on_callback math_evaluate t (js ''k:BS'') s)) = result s"
    using on_callback_key(2) [of math_evaluate t "js ''BS''" s]
    by (simp add: press_key_def js_def)
  show "expr (fst (on_callback math_evaluate t (js ''k:='') s)) = expr s"
    using on_callback_key(1) [of math_evaluate t "js ''=''" s]
    by (simp add: press_key_def js_def)
  show "result (fst (on_callback math_evaluate t (js ''k:='') s)) =
     (if expr s = [] then []
      else case safeEval math_evaluate (expr s) of
             Inr v \<Rightarrow> v
           | Inl e \<Rightarrow> js ''Error: '' @ message e)"
    using on_callback_key(2) [of math_evaluate t "js ''=''" s]
    by (simp add: press_key_def js_def)
qed

theorem key_frame_conditions_witness:
  "expr (fst (on_callback mathjs_sample \<lparr>edit_ok = True, reply = Some 1, retry = Some 2\<rparr>
      (js ''k:7'') \<lparr>expr = js ''12+3'', result = [], msgId = Some 5\<rparr>)) = js ''12+37'' \<and>
   expr (fst (on_callback mathjs_sample \<lparr>edit_ok = True, reply = Some 1, retry = Some 2\<rparr>
      (js ''k:BS'') \<lparr>expr = js ''12+3'', result = [], msgId = Some 5\<rparr>)) = js ''12+'' \<and>
   result (fst (on_callback mathjs_sample \<lparr>edit_ok = True, reply = Some 1, retry = Some 2\<rparr>
      (js ''k:='') \<lparr>expr = js ''12+3'', result = [], msgId = Some 5\<rparr>)) = js ''15''"
proof -
  have "mathjs_sample (js ''12+3'') = Returned (NumberValue (Finite False 15))"
    by (simp add: mathjs_sample_def js_def)
  then have "safeEval mathjs_sample (js ''12+3'') = Inr (js ''15'')"
    by (rule sum_evaluates)
  moreover have "js ''7'' \<in> set append_keys"
    by (simp add: append_keys_def)
  ultimately show ?thesis
    using key_frame_conditions [of "js ''7''" mathjs_sample
        "\<lparr>edit_ok = True, reply = Some 1, retry = Some 2\<rparr>"
        "\<lparr>expr = js ''12+3'', result = [], msgId = Some 5\<rparr>"]
    by (simp add: js_def)
qed

text \<open>
  C10: the \<^verbatim>\<open>/calculator\<close> command stores a session with \<^verbatim>\<open>expr\<close> and \<^verbatim>\<open>result\<close> empty
  for the chat, whatever session the chat had before and whether or not the reply
  is delivered; \<^verbatim>\<open>msgId\<close> is the id of the reply (\<^verbatim>\<open>null\<close> when it fails). The sessions
  of the other chats stay as they are.
\<close>

theorem calculator_command_resets:
  "fst (calculator_command replied chatId state) chatId =
     Some \<lparr>expr = [], result = [], msgId = replied\<rparr> \<and>
   (\<forall>c. c \<noteq> chatId \<longrightarrow> fst (calculator_command replied chatId state) c = state c)"
  by (cases replied) (simp_all add: calculator_command_def)

theorem calculator_command_resets_witness:
  "fst (calculator_command (Some 9) 1
      [1 \<mapsto> \<lparr>expr = js ''12+3'', result = js ''15'', msgId = Some 5\<rparr>,
       2 \<mapsto> \<lparr>expr = js ''7'', result = [], msgId = Some 6\<rparr>]) 1 =
     Some \<lparr>expr = [], result = [], msgId = Some 9\<rparr> \<and>
   fst (calculator_command (Some 9) 1
      [1 \<mapsto> \<lparr>expr = js ''12+3'', result = js ''15'', msgId = Some 5\<rparr>,
       2 \<mapsto> \<lparr>expr = js ''7'', result = [], msgId = Some 6\<rparr>]) 2 =
     Some \<lparr>expr = js ''7'', result = [], msgId = Some 6\<rparr>"
  using calculator_command_resets [of "Some 9" 1
      "[1 \<mapsto> \<lparr>expr = js ''12+3'', result = js ''15'', msgId = Some 5\<rparr>,
        2 \<mapsto> \<lparr>expr = js ''7'', result = [], msgId = Some 6\<rparr>]"]
  by simp

end
